theory Spec2Isabelle
  imports Main "HOL-Library.Word"
begin

section \<open>JavaScript strings\<close>

text \<open>
  A JavaScript string is a sequence of UTF-16 code units; \<open>length\<close>, \<open>slice\<close> and a
  regular expression without the \<open>u\<close> flag all count and read code units.
  \<open>js\<close> turns an ASCII literal of the theory into such a string.
\<close>

type_synonym cu = "16 word"
type_synonym jsstring = "cu list"

definition js :: "string \<Rightarrow> jsstring" where
  "js s = map of_char s"

text \<open>An exception is kept as its message.\<close>

type_synonym exn = jsstring

section \<open>Validation patterns\<close>

text \<open>
  The patterns of the server are anchored at both ends (\<open>^ ... $\<close>, no flags), each a
  sequence of literal characters and one bounded repetition of a character class.
  \<open>run r s\<close> lists the rests of \<open>s\<close> that remain after \<open>r\<close> has matched a prefix of
  \<open>s\<close>, longest repetition first, as the backtracking matcher tries them;
  \<open>regex_test r s\<close> is \<open>/^r$/.test(s)\<close>: some way of matching leaves nothing.
\<close>

datatype citem = Single cu | Range cu cu

datatype regex = Lit jsstring | Class "citem list" | Seq regex regex | Rep nat nat regex

fun in_item :: "cu \<Rightarrow> citem \<Rightarrow> bool" where
  "in_item c (Single d) = (c = d)"
| "in_item c (Range lo hi) = (lo \<le> c \<and> c \<le> hi)"

definition in_class :: "citem list \<Rightarrow> cu \<Rightarrow> bool" where
  "in_class items c = list_ex (in_item c) items"

fun reps :: "(jsstring \<Rightarrow> jsstring list) \<Rightarrow> nat \<Rightarrow> nat \<Rightarrow> jsstring \<Rightarrow> jsstring list" where
  "reps f lo 0 s = (if lo = 0 then [s] else [])"
| "reps f lo (Suc hi) s =
     concat (map (reps f (lo - 1) hi) (f s)) @ (if lo = 0 then [s] else [])"

primrec run :: "regex \<Rightarrow> jsstring \<Rightarrow> jsstring list" where
  "run (Lit w) = (\<lambda>s. if take (length w) s = w then [drop (length w) s] else [])"
| "run (Class items) = (\<lambda>s. case s of [] \<Rightarrow> [] | c # t \<Rightarrow> if in_class items c then [t] else [])"
| "run (Seq a b) = (\<lambda>s. concat (map (run b) (run a s)))"
| "run (Rep lo hi r) = reps (run r) lo hi"

definition regex_test :: "regex \<Rightarrow> jsstring \<Rightarrow> bool" where
  "regex_test r s = ([] \<in> set (run r s))"

text \<open>\<^verbatim>\<open>const REPO_SLUG_RE = /^[a-zA-Z0-9._-]{1,128}$/;\<close>\<close>

definition slug_class :: "citem list" where
  "slug_class = [Range (of_char CHR ''a'') (of_char CHR ''z''),
                 Range (of_char CHR ''A'') (of_char CHR ''Z''),
                 Range (of_char CHR ''0'') (of_char CHR ''9''),
                 Single (of_char CHR ''.''), Single (of_char CHR ''_''),
                 Single (of_char CHR ''-'')]"

definition REPO_SLUG_RE :: regex where
  "REPO_SLUG_RE = Rep 1 128 (Class slug_class)"

text \<open>\<^verbatim>\<open>const IMAGE_RE = /^ghcr\.io\/[a-z0-9._/-]{1,256}$/;\<close>\<close>

definition image_class :: "citem list" where
  "image_class = [Range (of_char CHR ''a'') (of_char CHR ''z''),
                  Range (of_char CHR ''0'') (of_char CHR ''9''),
                  Single (of_char CHR ''.''), Single (of_char CHR ''_''),
                  Single (of_char CHR ''/''), Single (of_char CHR ''-'')]"

definition IMAGE_RE :: regex where
  "IMAGE_RE = Seq (Lit (js ''ghcr.io/'')) (Rep 1 256 (Class image_class))"

text \<open>\<^verbatim>\<open>const TAG_RE = /^[a-zA-Z0-9._-]{1,128}$/;\<close>\<close>

definition TAG_RE :: regex where
  "TAG_RE = Rep 1 128 (Class slug_class)"

text \<open>\<^verbatim>\<open>const ENVS = new Set(["prod", "dev", ""]);\<close>\<close>

definition ENVS :: "jsstring list" where
  "ENVS = [js ''prod'', js ''dev'', js '''']"

section \<open>Values and optional fields\<close>

text \<open>
  The values a request header or a field of the parsed JSON body can hold, and that
  \<open>timingSafeEqual\<close> tells apart with \<open>typeof\<close>: \<open>undefined\<close> for what is absent,
  \<open>null\<close>, booleans, strings, arrays, and objects with their own properties in order.
  Numbers are left out: like a boolean, a number is no string, and converting it to a
  string does not throw.
\<close>

datatype jsval =
    JUndefined
  | JNull
  | JBool bool
  | JString jsstring
  | JArray "jsval list"
  | JObject "(jsstring \<times> jsval) list"

fun typeof :: "jsval \<Rightarrow> string" where
  "typeof JUndefined = ''undefined''"
| "typeof JNull = ''object''"
| "typeof (JBool b) = ''boolean''"
| "typeof (JString s) = ''string''"
| "typeof (JArray xs) = ''object''"
| "typeof (JObject ps) = ''object''"

fun truthy :: "jsval \<Rightarrow> bool" where
  "truthy JUndefined = False"
| "truthy JNull = False"
| "truthy (JBool b) = b"
| "truthy (JString s) = (s \<noteq> [])"
| "truthy (JArray xs) = True"
| "truthy (JObject ps) = True"

text \<open>
  The conversion to a string that a template literal \<open>`${v}`\<close> applies. An array
  joins the conversions of its elements with commas, \<open>null\<close> and \<open>undefined\<close>
  elements giving nothing. An object of the JSON body is converted by the method
  \<open>toString\<close>: the inherited one answers \<open>[object Object]\<close>; an own property of that
  name holds a JSON value, which is no function, and then neither it nor \<open>valueOf\<close>
  yields a primitive and the conversion throws a TypeError.
\<close>

fun ToString :: "jsval \<Rightarrow> exn + jsstring" and join_elements :: "jsval list \<Rightarrow> exn + jsstring" where
  "ToString JUndefined = Inr (js ''undefined'')"
| "ToString JNull = Inr (js ''null'')"
| "ToString (JBool b) = Inr (if b then js ''true'' else js ''false'')"
| "ToString (JString s) = Inr s"
| "ToString (JArray xs) = join_elements xs"
| "ToString (JObject ps) =
     (if js ''toString'' \<in> set (map fst ps)
      then Inl (js ''Cannot convert object to primitive value'')
      else Inr (js ''[object Object]''))"
| "join_elements [] = Inr []"
| "join_elements (x # xs) =
     (case (if x = JUndefined \<or> x = JNull then Inr [] else ToString x) of
        Inl e \<Rightarrow> Inl e
      | Inr s \<Rightarrow>
          if xs = [] then Inr s
          else (case join_elements xs of Inl e \<Rightarrow> Inl e | Inr r \<Rightarrow> Inr (s @ js '','' @ r)))"

text \<open>\<open>x || d\<close> on an optional string: the empty string is falsy, as \<open>undefined\<close> is.\<close>

definition or_else :: "jsstring option \<Rightarrow> jsstring \<Rightarrow> jsstring" where
  "or_else x d = (case x of None \<Rightarrow> d | Some v \<Rightarrow> if v = [] then d else v)"

section \<open>Per-repo deploy lock\<close>

text \<open>
  \<^verbatim>\<open>const deployLocks = new Map();
  function acquireLock(repo) {
    if (deployLocks.get(repo)) return false;
    deployLocks.set(repo, true);
    return true;
  }
  function releaseLock(repo) { deployLocks.delete(repo); }\<close>
  The table is passed in and returned.
\<close>

type_synonym lock_table = "jsstring \<rightharpoonup> bool"

definition acquireLock :: "jsstring \<Rightarrow> lock_table \<Rightarrow> bool \<times> lock_table" where
  "acquireLock repo deployLocks =
     (if deployLocks repo = Some True then (False, deployLocks)
      else (True, deployLocks(repo \<mapsto> True)))"

definition releaseLock :: "jsstring \<Rightarrow> lock_table \<Rightarrow> lock_table" where
  "releaseLock repo deployLocks = deployLocks(repo := None)"

section \<open>Tail helper\<close>

text \<open>
  \<open>str.slice(start)\<close> with one argument: a negative start counts from the end, and
  both are clamped to the string.
\<close>

definition slice_from :: "jsstring \<Rightarrow> int \<Rightarrow> jsstring" where
  "slice_from str start =
     (let len = int (length str);
          from = (if start < 0 then max (len + start) 0 else min start len)
      in drop (nat from) str)"

text \<open>
  \<^verbatim>\<open>function tail(str, maxChars) {
    if (!str) return "";
    return str.length > maxChars ? str.slice(-maxChars) : str;
  }\<close>
\<close>

definition tail :: "jsstring \<Rightarrow> int \<Rightarrow> jsstring" where
  "tail str maxChars =
     (if str = [] then []
      else if int (length str) > maxChars then slice_from str (- maxChars) else str)"

section \<open>Timing-safe string comparison\<close>

text \<open>
  \<open>Buffer.from(str)\<close> is the UTF-8 encoding of the string: a surrogate pair is one
  code point of four bytes, a surrogate on its own is replaced by U+FFFD.
\<close>

type_synonym byte = "8 word"

definition is_high_surrogate :: "nat \<Rightarrow> bool" where
  "is_high_surrogate u = (0xD800 \<le> u \<and> u < 0xDC00)"

definition is_low_surrogate :: "nat \<Rightarrow> bool" where
  "is_low_surrogate u = (0xDC00 \<le> u \<and> u < 0xE000)"

definition utf8_3 :: "nat \<Rightarrow> byte list" where
  "utf8_3 u = [of_nat (0xE0 + u div 4096), of_nat (0x80 + (u div 64) mod 64),
               of_nat (0x80 + u mod 64)]"

definition utf8_4 :: "nat \<Rightarrow> byte list" where
  "utf8_4 u = [of_nat (0xF0 + u div 262144), of_nat (0x80 + (u div 4096) mod 64),
               of_nat (0x80 + (u div 64) mod 64), of_nat (0x80 + u mod 64)]"

fun Buffer_from :: "jsstring \<Rightarrow> byte list" where
  "Buffer_from [] = []"
| "Buffer_from (c # cs) =
     (let u = unat c in
      if u < 0x80 then of_nat u # Buffer_from cs
      else if u < 0x800 then of_nat (0xC0 + u div 64) # of_nat (0x80 + u mod 64) # Buffer_from cs
      else if is_high_surrogate u then
        (case cs of
           [] \<Rightarrow> utf8_3 0xFFFD
         | d # ds \<Rightarrow>
             if is_low_surrogate (unat d)
             then utf8_4 (0x10000 + (u - 0xD800) * 1024 + (unat d - 0xDC00)) @ Buffer_from ds
             else utf8_3 0xFFFD @ Buffer_from cs)
      else if is_low_surrogate u then utf8_3 0xFFFD @ Buffer_from cs
      else utf8_3 u @ Buffer_from cs)"

text \<open>
  \<open>crypto.timingSafeEqual(a, b)\<close> of Node: it throws a RangeError when the two buffers
  differ in byte length, and otherwise tells whether they hold the same bytes.
\<close>

definition crypto_timingSafeEqual :: "byte list \<Rightarrow> byte list \<Rightarrow> exn + bool" where
  "crypto_timingSafeEqual a b =
     (if length a \<noteq> length b then Inl (js ''Input buffers must have the same byte length'')
      else Inr (a = b))"

text \<open>
  \<^verbatim>\<open>function timingSafeEqual(a, b) {
    if (typeof a !== "string" || typeof b !== "string") return false;
    const bufA = Buffer.from(a);
    const bufB = Buffer.from(b);
    if (bufA.length !== bufB.length) return false;
    return crypto.timingSafeEqual(bufA, bufB);
  }\<close>
\<close>

definition timingSafeEqual :: "jsval \<Rightarrow> jsval \<Rightarrow> exn + bool" where
  "timingSafeEqual a b =
     (case a of
        JString x \<Rightarrow>
          (case b of
             JString y \<Rightarrow>
               (let bufA = Buffer_from x; bufB = Buffer_from y in
                if length bufA \<noteq> length bufB then Inr False
                else crypto_timingSafeEqual bufA bufB)
           | _ \<Rightarrow> Inr False)
      | _ \<Rightarrow> Inr False)"

section \<open>Configuration, requests and responses\<close>

text \<open>
  \<open>loadConfig\<close> returns the configuration once, at boot. \<open>allowlist\<close> is \<open>null\<close>
  (\<open>None\<close>) when no allowlist file exists and the parsed JSON array otherwise;
  \<open>maxOutputChars\<close> and \<open>deployTimeoutMs\<close> come from \<open>parseInt(...) || DEFAULT\<close>.
\<close>

record secret_store =
  vaultwardenMasterPassword :: jsstring
  ghcrPat :: jsstring
  deployReceiverToken :: jsstring

record config =
  appsRoot :: jsstring
  allowlist :: "jsstring list option"
  deployTimeoutMs :: int
  maxOutputChars :: int
  secrets :: secret_store

text \<open>
  The request as the handler reads it: the \<open>x-deploy-token\<close> header and the five
  fields taken from \<open>req.body || {}\<close>. The four fields that the patterns, the
  allowlist and \<open>path.join\<close> check are optional strings, \<open>None\<close> for a field that is
  absent (or \<open>null\<close>); \<open>deliveryId\<close>, which nothing checks, is whatever value the
  body holds.
\<close>

record request =
  x_deploy_token :: jsval
  req_repo :: "jsstring option"
  req_image :: "jsstring option"
  req_tag :: "jsstring option"
  req_environment :: "jsstring option"
  req_deliveryId :: jsval

text \<open>
  The JSON answer with its HTTP status; a field that the handler does not put into the
  object is \<open>None\<close>.
\<close>

record response =
  res_status :: nat
  res_ok :: bool
  res_repo :: "jsstring option"
  res_image :: "jsstring option"
  res_tag :: "jsstring option"
  res_output :: "jsstring option"
  res_error :: "jsstring option"

text \<open>\<^verbatim>\<open>res.status(code).json({ ok: false, error: msg })\<close>\<close>

definition error_response :: "nat \<Rightarrow> jsstring \<Rightarrow> response" where
  "error_response code msg =
     \<lparr>res_status = code, res_ok = False, res_repo = None, res_image = None, res_tag = None,
      res_output = None, res_error = Some msg\<rparr>"

text \<open>
  What the handler asks of the operating system: \<open>path.join\<close>, the three file-system
  probes, and \<open>crypto.randomUUID()\<close>.
\<close>

record sysenv =
  path_join :: "jsstring \<Rightarrow> jsstring \<Rightarrow> jsstring"
  existsSync :: "jsstring \<Rightarrow> bool"
  isDirectory :: "jsstring \<Rightarrow> bool"
  accessX :: "jsstring \<Rightarrow> bool"
  randomUUID :: jsstring

text \<open>The argument object of \<open>runDeploy\<close>.\<close>

record run_args =
  deployScript :: jsstring
  repoDir :: jsstring
  run_repo :: jsstring
  run_image :: jsstring
  run_tag :: jsstring
  run_env :: jsstring
  reqId :: jsval

text \<open>
  The effects of a request that another request or the operating system can observe,
  in the order they happen, and the state of the process: the lock table and the
  effects so far.
\<close>

datatype signal = SIGTERM | SIGKILL

text \<open>
  The two timers of \<open>runDeploy\<close>: \<open>timer\<close>, whose callback sends SIGTERM, and the
  timer that this callback sets, whose callback sends SIGKILL.
\<close>

datatype timer = TermTimer | KillTimer

text \<open>
  \<open>Spawn script cwd env timeout\<close> is the call of \<open>spawn\<close> with its options,
  \<open>SetTimeout t ms\<close> and \<open>ClearTimeout t\<close> the calls of \<open>setTimeout\<close> and
  \<open>clearTimeout\<close>, \<open>Kill sig\<close> the call \<open>child.kill(sig)\<close>.
\<close>

datatype effect =
    FsProbe jsstring
  | LockAcquire jsstring bool
  | LockRelease jsstring
  | Spawn jsstring jsstring "(string \<times> jsstring) list" int
  | SetTimeout timer int
  | ClearTimeout timer
  | Kill signal

record state =
  deployLocks :: lock_table
  effects :: "effect list"

section \<open>Execute deploy.sh as a child process\<close>

text \<open>The environment handed to \<open>spawn("/bin/bash", [deployScript], ...)\<close>.\<close>

definition spawn_env :: "config \<Rightarrow> run_args \<Rightarrow> (string \<times> jsstring) list" where
  "spawn_env cfg a =
     [(''PATH'', js ''/usr/local/sbin:/usr/local/bin:/usr/sbin:/usr/bin:/sbin:/bin''),
      (''HOME'', repoDir a),
      (''DEPLOY_REPO'', run_repo a),
      (''DEPLOY_IMAGE'', run_image a),
      (''DEPLOY_TAG'', run_tag a),
      (''DEPLOY_ENV'', run_env a),
      (''VAULTWARDEN_MASTER_PASSWORD'', vaultwardenMasterPassword (secrets cfg)),
      (''GHCR_PAT'', ghcrPat (secrets cfg))]"

text \<open>
  \<open>runDeploy\<close> returns a promise and leaves callbacks behind. What it does at the call
  is \<open>runDeploy_launch\<close>: it spawns the child, with \<open>config.deployTimeoutMs\<close> as the
  \<open>timeout\<close> option, and sets \<open>timer\<close> to the same delay. What it does later is
  driven by events: a \<open>data\<close> chunk of the child, its \<open>error\<close> or \<open>close\<close> event, or
  the expiry of a timer that is set and not cleared. \<open>child_run\<close> is what the
  callbacks share: the two buffers, how the promise has settled (a promise settles once;
  \<open>None\<close> while it is pending), and which timers are waiting.
\<close>

datatype child_event =
    StdoutData jsstring
  | StderrData jsstring
  | ErrorEvent exn
  | CloseEvent "int option"
  | TimerFired timer

datatype run_outcome = Resolved "int option" jsstring jsstring | Rejected exn

record child_run =
  stdout :: jsstring
  stderr :: jsstring
  settled :: "run_outcome option"
  term_waiting :: bool
  kill_waiting :: bool

definition settle :: "run_outcome \<Rightarrow> child_run \<Rightarrow> child_run" where
  "settle outcome r = (case settled r of None \<Rightarrow> r\<lparr>settled := Some outcome\<rparr> | Some done \<Rightarrow> r)"

definition launched :: child_run where
  "launched = \<lparr>stdout = [], stderr = [], settled = None, term_waiting = True,
               kill_waiting = False\<rparr>"

definition runDeploy_launch :: "config \<Rightarrow> run_args \<Rightarrow> effect list" where
  "runDeploy_launch cfg a =
     [Spawn (deployScript a) (repoDir a) (spawn_env cfg a) (deployTimeoutMs cfg),
      SetTimeout TermTimer (deployTimeoutMs cfg)]"

text \<open>
  One event: the callbacks that run, in the order they were registered. The exit code
  of \<open>close\<close> is \<open>null\<close> (\<open>None\<close>) when a signal ended the child.
  \<^verbatim>\<open>child.stdout.on("data", (data) => { stdout += data.toString(); });
  child.stderr.on("data", (data) => { stderr += data.toString(); });
  child.on("error", (err) => { reject(err); });
  child.on("close", (exitCode) => { resolve({ exitCode, stdout, stderr }); });
  const timer = setTimeout(() => {
    try { child.kill("SIGTERM"); } catch { }
    setTimeout(() => { try { child.kill("SIGKILL"); } catch { } }, 5000);
  }, config.deployTimeoutMs);
  child.on("close", () => clearTimeout(timer));\<close>
\<close>

fun runDeploy_on :: "child_event \<Rightarrow> child_run \<Rightarrow> child_run \<times> effect list" where
  "runDeploy_on (StdoutData d) r = (r\<lparr>stdout := stdout r @ d\<rparr>, [])"
| "runDeploy_on (StderrData d) r = (r\<lparr>stderr := stderr r @ d\<rparr>, [])"
| "runDeploy_on (ErrorEvent err) r = (settle (Rejected err) r, [])"
| "runDeploy_on (CloseEvent exitCode) r =
     ((settle (Resolved exitCode (stdout r) (stderr r)) r)\<lparr>term_waiting := False\<rparr>,
      [ClearTimeout TermTimer])"
| "runDeploy_on (TimerFired TermTimer) r =
     (if term_waiting r
      then (r\<lparr>term_waiting := False, kill_waiting := True\<rparr>,
            [Kill SIGTERM, SetTimeout KillTimer 5000])
      else (r, []))"
| "runDeploy_on (TimerFired KillTimer) r =
     (if kill_waiting r then (r\<lparr>kill_waiting := False\<rparr>, [Kill SIGKILL]) else (r, []))"

text \<open>A sequence of events, with the effects of all of them.\<close>

fun runDeploy :: "child_event list \<Rightarrow> child_run \<Rightarrow> child_run \<times> effect list" where
  "runDeploy [] r = (r, [])"
| "runDeploy (e # es) r =
     (let (r1, first) = runDeploy_on e r; (r2, later) = runDeploy es r1 in (r2, first @ later))"

section \<open>Deploy endpoint\<close>

text \<open>
  \<^verbatim>\<open>const token = req.headers["x-deploy-token"];
  if (!token || !timingSafeEqual(token, config.secrets.deployReceiverToken)) ...\<close>
\<close>

definition authorized :: "config \<Rightarrow> request \<Rightarrow> exn + bool" where
  "authorized cfg req =
     (let token = x_deploy_token req in
      if \<not> truthy token then Inr False
      else timingSafeEqual token (JString (deployReceiverToken (secrets cfg))))"

text \<open>
  The checks on the body, lines \<open>Parse body\<close> to \<open>Validate environment\<close> of the
  handler, in the order of the source; \<open>None\<close> when all pass.
\<close>

definition validate :: "config \<Rightarrow> request \<Rightarrow> response option" where
  "validate cfg req =
     (let repo = or_else (req_repo req) [];
          image = or_else (req_image req) [];
          tag = or_else (req_tag req) [] in
      if repo = [] \<or> image = [] \<or> tag = [] then
        Some (error_response 400 (js ''Missing required fields: repo, image, tag''))
      else if \<not> regex_test REPO_SLUG_RE repo then
        Some (error_response 400 (js ''Invalid repo slug format''))
      else if (case allowlist cfg of None \<Rightarrow> False | Some al \<Rightarrow> repo \<notin> set al) then
        Some (error_response 403 (js ''Repo not in allowlist''))
      else if \<not> regex_test IMAGE_RE image then
        Some (error_response 400
               (js ''Invalid image format (must be ghcr.io/'' @ [0x2026] @ js '')''))
      else if \<not> regex_test TAG_RE tag then
        Some (error_response 400 (js ''Invalid tag format''))
      else if or_else (req_environment req) [] \<notin> set ENVS then
        Some (error_response 400 (js ''Invalid environment value''))
      else None)"

text \<open>
  \<open>Resolve paths\<close>: the probes made, in order, and the answer when one fails.
\<close>

definition check_paths :: "config \<Rightarrow> sysenv \<Rightarrow> jsstring \<Rightarrow> effect list \<times> response option" where
  "check_paths cfg sys repo =
     (let dir = path_join sys (appsRoot cfg) repo;
          script = path_join sys dir (js ''deploy.sh'') in
      if \<not> existsSync sys dir \<or> \<not> isDirectory sys dir then
        ([FsProbe dir], Some (error_response 404 (js ''Repo directory not found: '' @ dir)))
      else if \<not> existsSync sys script then
        ([FsProbe dir, FsProbe script],
         Some (error_response 404 (js ''deploy.sh not found in '' @ dir)))
      else if \<not> accessX sys script then
        ([FsProbe dir, FsProbe script, FsProbe script],
         Some (error_response 500 (js ''deploy.sh is not executable'')))
      else ([FsProbe dir, FsProbe script, FsProbe script], None))"

text \<open>
  The handler up to \<open>await runDeploy(...)\<close>: it answers at once, or it has taken the
  lock and spawned the child and waits for the promise, or an exception leaves it.
  Between \<open>acquireLock\<close> and \<open>try\<close> stand
  \<^verbatim>\<open>const reqId = deliveryId || crypto.randomUUID();
  console.log(`[deploy] ${reqId} | repo=${repo} image=${image} tag=${tag} env=${env}`);\<close>
  where the conversion of \<open>reqId\<close> to a string can throw; the other four are strings.
\<close>

datatype phase1 = Respond response | Await run_args | Uncaught exn

definition busy_response :: "jsstring \<Rightarrow> response" where
  "busy_response repo = error_response 409 (js ''Deploy already in progress for '' @ repo)"

text \<open>\<^verbatim>\<open>const reqId = deliveryId || crypto.randomUUID();\<close>\<close>

definition request_id :: "sysenv \<Rightarrow> request \<Rightarrow> jsval" where
  "request_id sys req =
     (if truthy (req_deliveryId req) then req_deliveryId req else JString (randomUUID sys))"

definition deploy_begin :: "config \<Rightarrow> sysenv \<Rightarrow> request \<Rightarrow> state \<Rightarrow> phase1 \<times> state" where
  "deploy_begin cfg sys req s =
     (case authorized cfg req of
        Inl e \<Rightarrow> (Uncaught e, s)
      | Inr auth \<Rightarrow>
          if \<not> auth then (Respond (error_response 401 (js ''Unauthorized'')), s)
          else
            (case validate cfg req of
               Some r \<Rightarrow> (Respond r, s)
             | None \<Rightarrow>
                 (let repo = or_else (req_repo req) [];
                      image = or_else (req_image req) [];
                      tag = or_else (req_tag req) [];
                      env = or_else (req_environment req) [];
                      dir = path_join sys (appsRoot cfg) repo;
                      script = path_join sys dir (js ''deploy.sh'');
                      (probes, missing) = check_paths cfg sys repo;
                      s1 = s\<lparr>effects := effects s @ probes\<rparr>
                  in case missing of
                       Some r \<Rightarrow> (Respond r, s1)
                     | None \<Rightarrow>
                         (let (got, locks) = acquireLock repo (deployLocks s1);
                              s2 = s1\<lparr>deployLocks := locks,
                                      effects := effects s1 @ [LockAcquire repo got]\<rparr>
                          in if \<not> got then (Respond (busy_response repo), s2)
                             else
                               (let rid = request_id sys req
                                in case ToString rid of
                                     Inl e \<Rightarrow> (Uncaught e, s2)
                                   | Inr line \<Rightarrow>
                                       (let a = \<lparr>deployScript = script, repoDir = dir,
                                                 run_repo = repo, run_image = image,
                                                 run_tag = tag, run_env = env, reqId = rid\<rparr>
                                        in (Await a,
                                            s2\<lparr>effects := effects s2 @
                                                 runDeploy_launch cfg a\<rparr>)))))))"

text \<open>
  \<open>try { body } catch (err) { handler } finally { finalizer }\<close> over the state: the
  handler runs when the body throws, the finalizer runs in every case, and an
  exception of the finalizer replaces the result.
\<close>

type_synonym 'a comp = "state \<Rightarrow> (exn + 'a) \<times> state"

definition try_catch_finally :: "'a comp \<Rightarrow> (exn \<Rightarrow> 'a comp) \<Rightarrow> unit comp \<Rightarrow> 'a comp" where
  "try_catch_finally body handler finalizer s =
     (let (r1, s1) = body s;
          (r2, s2) = (case r1 of Inl e \<Rightarrow> handler e s1 | Inr v \<Rightarrow> (Inr v, s1));
          (r3, s3) = finalizer s2
      in case r3 of Inl e \<Rightarrow> (Inl e, s3) | Inr u \<Rightarrow> (r2, s3))"

text \<open>
  The handler from the moment the promise of \<open>runDeploy\<close> settles, in the state the
  process has by then.
\<close>

definition deploy_finish :: "config \<Rightarrow> run_args \<Rightarrow> run_outcome \<Rightarrow> response comp" where
  "deploy_finish cfg a outcome =
     try_catch_finally
       (\<lambda>s. case outcome of
               Rejected err \<Rightarrow> (Inl err, s)
             | Resolved exitCode out err \<Rightarrow>
                 if exitCode = Some 0 then
                   (Inr \<lparr>res_status = 200, res_ok = True, res_repo = Some (run_repo a),
                         res_image = Some (run_image a), res_tag = Some (run_tag a),
                         res_output = Some (tail out (maxOutputChars cfg)),
                         res_error = None\<rparr>, s)
                 else
                   (Inr \<lparr>res_status = 500, res_ok = False, res_repo = Some (run_repo a),
                         res_image = Some (run_image a), res_tag = Some (run_tag a),
                         res_output = None,
                         res_error = Some (tail (if err \<noteq> [] then err else out)
                                                 (maxOutputChars cfg))\<rparr>, s))
       (\<lambda>err s.
          (Inr \<lparr>res_status = 500, res_ok = False, res_repo = Some (run_repo a),
                res_image = Some (run_image a), res_tag = Some (run_tag a),
                res_output = None, res_error = Some err\<rparr>, s))
       (\<lambda>s. (Inr (), s\<lparr>deployLocks := releaseLock (run_repo a) (deployLocks s),
                        effects := effects s @ [LockRelease (run_repo a)]\<rparr>))"

text \<open>
  One request handled with no other request in between. \<open>await_events\<close> is the
  handler waiting: events reach the callbacks of \<open>runDeploy\<close> one by one, and when the
  promise settles the handler resumes and answers; events that come after that still
  reach the callbacks. The request stays \<open>Pending\<close> when the promise never settles.
\<close>

datatype handled = Replied response | Crashed exn | Pending

fun await_events ::
  "config \<Rightarrow> run_args \<Rightarrow> child_event list \<Rightarrow> child_run \<Rightarrow> handled \<Rightarrow> state \<Rightarrow> handled \<times> state"
where
  "await_events cfg a [] r h s = (h, s)"
| "await_events cfg a (e # es) r h s =
     (let (r1, done) = runDeploy_on e r;
          s1 = s\<lparr>effects := effects s @ done\<rparr>
      in case (h, settled r1) of
           (Pending, Some outcome) \<Rightarrow>
             (case deploy_finish cfg a outcome s1 of
                (Inl x, s2) \<Rightarrow> await_events cfg a es r1 (Crashed x) s2
              | (Inr answer, s2) \<Rightarrow> await_events cfg a es r1 (Replied answer) s2)
         | _ \<Rightarrow> await_events cfg a es r1 h s1)"

definition deploy :: "config \<Rightarrow> sysenv \<Rightarrow> request \<Rightarrow> child_event list \<Rightarrow> state \<Rightarrow> handled \<times> state" where
  "deploy cfg sys req events s =
     (case deploy_begin cfg sys req s of
        (Respond r, s1) \<Rightarrow> (Replied r, s1)
      | (Uncaught e, s1) \<Rightarrow> (Crashed e, s1)
      | (Await a, s1) \<Rightarrow> await_events cfg a events launched Pending s1)"

section \<open>The properties, in the words of the specification\<close>

text \<open>
  The repository-identifier grammar \<open>^[A-Za-z0-9._-]{1,128}$\<close>, read as a condition
  on the string: between 1 and 128 code units, each an ASCII letter, a digit, a dot,
  an underscore or a dash.
\<close>

definition slug_char :: "cu \<Rightarrow> bool" where
  "slug_char c =
     ((0x41 \<le> c \<and> c \<le> 0x5A) \<or> (0x61 \<le> c \<and> c \<le> 0x7A) \<or> (0x30 \<le> c \<and> c \<le> 0x39) \<or>
      c = 0x2E \<or> c = 0x5F \<or> c = 0x2D)"

definition repo_grammar :: "jsstring \<Rightarrow> bool" where
  "repo_grammar s = (1 \<le> length s \<and> length s \<le> 128 \<and> (\<forall>c\<in>set s. slug_char c))"

text \<open>\<open>has_infix w s\<close>: the string \<open>s\<close> contains \<open>w\<close>.\<close>

fun has_infix :: "jsstring \<Rightarrow> jsstring \<Rightarrow> bool" where
  "has_infix w [] = (w = [])"
| "has_infix w (c # cs) = (take (length w) (c # cs) = w \<or> has_infix w cs)"

text \<open>The trailing \<open>n\<close>-character slice of a string.\<close>

definition trailing :: "nat \<Rightarrow> jsstring \<Rightarrow> jsstring" where
  "trailing n s = drop (length s - n) s"










text \<open>
  What the child wrote to stdout and to stderr, by the chunks among the events.
\<close>

fun stdout_of :: "child_event list \<Rightarrow> jsstring" where
  "stdout_of [] = []"
| "stdout_of (StdoutData d # es) = d @ stdout_of es"
| "stdout_of (e # es) = stdout_of es"

fun stderr_of :: "child_event list \<Rightarrow> jsstring" where
  "stderr_of [] = []"
| "stderr_of (StderrData d # es) = d @ stderr_of es"
| "stderr_of (e # es) = stderr_of es"

text \<open>
  The child is still running through these events: none is its \<open>close\<close> or \<open>error\<close>.
\<close>

fun running :: "child_event list \<Rightarrow> bool" where
  "running [] = True"
| "running (CloseEvent c # es) = False"
| "running (ErrorEvent x # es) = False"
| "running (e # es) = running es"


text \<open>The answers after a run: success with an output, failure with an error.\<close>

definition success :: "run_args \<Rightarrow> jsstring \<Rightarrow> response" where
  "success a output =
     \<lparr>res_status = 200, res_ok = True, res_repo = Some (run_repo a),
      res_image = Some (run_image a), res_tag = Some (run_tag a),
      res_output = Some output, res_error = None\<rparr>"

definition failure :: "run_args \<Rightarrow> jsstring \<Rightarrow> response" where
  "failure a error =
     \<lparr>res_status = 500, res_ok = False, res_repo = Some (run_repo a),
      res_image = Some (run_image a), res_tag = Some (run_tag a),
      res_output = None, res_error = Some error\<rparr>"

text \<open>
  The lock table only ever holds the marker \<open>true\<close>: it starts empty, and the two
  operations keep it so.
\<close>

definition only_markers :: "lock_table \<Rightarrow> bool" where
  "only_markers m = (\<forall>r. m r \<noteq> Some False)"

section \<open>The request of the README\<close>

definition example_config :: config where
  "example_config =
     \<lparr>appsRoot = js ''/home/apps'', allowlist = Some [js ''sporty''],
      deployTimeoutMs = 180000, maxOutputChars = 4000,
      secrets = \<lparr>vaultwardenMasterPassword = js ''hunter2'', ghcrPat = js ''ghp_x'',
                 deployReceiverToken = js ''s3cret''\<rparr>\<rparr>"

definition example_sys :: sysenv where
  "example_sys =
     \<lparr>path_join = (\<lambda>a b. a @ js ''/'' @ b), existsSync = (\<lambda>p. True),
      isDirectory = (\<lambda>p. True), accessX = (\<lambda>p. True), randomUUID = js ''req-1''\<rparr>"

definition example_request :: request where
  "example_request =
     \<lparr>x_deploy_token = JString (js ''s3cret''), req_repo = Some (js ''sporty''),
      req_image = Some (js ''ghcr.io/tihlde/sporty''), req_tag = Some (js ''latest''),
      req_environment = Some (js ''prod''), req_deliveryId = JUndefined\<rparr>"

definition idle :: state where
  "idle = \<lparr>deployLocks = Map.empty, effects = []\<rparr>"

text \<open>The same request once it has taken the lock and spawned \<open>deploy.sh\<close>.\<close>

definition example_args :: run_args where
  "example_args =
     \<lparr>deployScript = js ''/home/apps/sporty/deploy.sh'', repoDir = js ''/home/apps/sporty'',
      run_repo = js ''sporty'', run_image = js ''ghcr.io/tihlde/sporty'',
      run_tag = js ''latest'', run_env = js ''prod'', reqId = JString (js ''req-1'')\<rparr>"

definition example_running :: state where
  "example_running =
     \<lparr>deployLocks = [js ''sporty'' \<mapsto> True],
      effects = [FsProbe (js ''/home/apps/sporty''), FsProbe (js ''/home/apps/sporty/deploy.sh''),
                 FsProbe (js ''/home/apps/sporty/deploy.sh''), LockAcquire (js ''sporty'') True,
                 Spawn (js ''/home/apps/sporty/deploy.sh'') (js ''/home/apps/sporty'')
                   (spawn_env example_config example_args) 180000,
                 SetTimeout TermTimer 180000]\<rparr>"

text \<open>The same request while a deploy of \<open>sporty\<close> is in flight, before and after.\<close>

definition sporty_busy :: state where
  "sporty_busy = \<lparr>deployLocks = [js ''sporty'' \<mapsto> True], effects = []\<rparr>"

definition sporty_refused :: state where
  "sporty_refused =
     \<lparr>deployLocks = [js ''sporty'' \<mapsto> True],
      effects = [FsProbe (js ''/home/apps/sporty''), FsProbe (js ''/home/apps/sporty/deploy.sh''),
                 FsProbe (js ''/home/apps/sporty/deploy.sh''), LockAcquire (js ''sporty'') False]\<rparr>"


text \<open>
  The same request with \<open>"deliveryId": {"toString": true}\<close> in the body, and the state
  it leaves behind.
\<close>

definition unprintable_request :: request where
  "unprintable_request =
     example_request\<lparr>req_deliveryId := JObject [(js ''toString'', JBool True)]\<rparr>"

definition sporty_leaked :: state where
  "sporty_leaked =
     \<lparr>deployLocks = [js ''sporty'' \<mapsto> True],
      effects = [FsProbe (js ''/home/apps/sporty''), FsProbe (js ''/home/apps/sporty/deploy.sh''),
                 FsProbe (js ''/home/apps/sporty/deploy.sh''), LockAcquire (js ''sporty'') True]\<rparr>"

text \<open>A request for the repo \<open>..\<close>, on a server without allowlist.\<close>

definition open_config :: config where
  "open_config = example_config\<lparr>allowlist := None\<rparr>"

definition dotdot_request :: request where
  "dotdot_request = example_request\<lparr>req_repo := Some (js ''..'')\<rparr>"


section \<open>The patterns as conditions on the string\<close>

lemma js_simps: "js [] = []" "js (c # cs) = of_char c # js cs"
  by (simp_all add: js_def)

text \<open>
  A bounded repetition of a character class matches the whole string exactly when the
  length is within the bounds and every code unit is in the class.
\<close>

lemma reps_class_nil:
  "[] \<in> set (reps (run (Class items)) lo hi s) \<longleftrightarrow>
     lo \<le> length s \<and> length s \<le> hi \<and> (\<forall>c\<in>set s. in_class items c)"
proof (induction hi arbitrary: lo s)
  case 0
  then show ?case by auto
next
  case (Suc hi)
  show ?case
  proof (cases s)
    case Nil
    then show ?thesis by simp
  next
    case (Cons c t)
    then show ?thesis using Suc.IH [of "lo - 1" t] by auto
  qed
qed

lemma in_slug_class: "in_class slug_class c = slug_char c"
  by (auto simp: in_class_def slug_class_def slug_char_def)

lemma repo_slug_test: "regex_test REPO_SLUG_RE s = repo_grammar s"
  by (simp only: regex_test_def REPO_SLUG_RE_def run.simps(4) reps_class_nil in_slug_class
        repo_grammar_def)

lemma tag_test: "regex_test TAG_RE s = repo_grammar s"
  by (simp only: regex_test_def TAG_RE_def run.simps(4) reps_class_nil in_slug_class
        repo_grammar_def)

lemma image_test:
  "regex_test IMAGE_RE s \<longleftrightarrow>
     take 8 s = js ''ghcr.io/'' \<and> 9 \<le> length s \<and> length s \<le> 264 \<and>
     (\<forall>c\<in>set (drop 8 s). in_class image_class c)"
proof -
  have len: "length (js ''ghcr.io/'') = 8" by (simp add: js_def)
  have "regex_test IMAGE_RE s \<longleftrightarrow>
          take 8 s = js ''ghcr.io/'' \<and> [] \<in> set (reps (run (Class image_class)) 1 256 (drop 8 s))"
    unfolding regex_test_def IMAGE_RE_def run.simps(1,3,4) len by (simp del: run.simps)
  then show ?thesis unfolding reps_class_nil by auto
qed

lemma slash_not_slug: "\<not> slug_char (of_char CHR ''/'')"
  by (simp add: slug_char_def)

section \<open>Repository identifiers\<close>

text \<open>
  The check of the repo field accepts exactly the grammar; so it rejects every string
  that is empty, is longer than 128 characters, contains \<open>/\<close>, or contains a character
  outside \<open>[A-Za-z0-9._-]\<close>.
\<close>

lemma repo_slug_rejects:
  "s = [] \<or> 128 < length s \<or> of_char CHR ''/'' \<in> set s \<or> (\<exists>c\<in>set s. \<not> slug_char c)
     \<Longrightarrow> \<not> regex_test REPO_SLUG_RE s"
  using slash_not_slug by (auto simp: repo_slug_test repo_grammar_def)

text \<open>
  Claim C1, where the code fails it. The claim asks that every string containing \<open>..\<close>
  is rejected, as the README does (\<open>No slashes, no .., no path traversal\<close>). The string
  \<open>..\<close> contains \<open>..\<close> and passes \<open>REPO_SLUG_RE\<close>, and on a server without
  allowlist a request for the repo \<open>..\<close> passes all of the validation; the handler goes
  on to \<open>path.join(appsRoot, "..")\<close>.
\<close>

theorem repo_slug_accepts_dotdot:
  "has_infix (js ''..'') (js ''..'') \<and> regex_test REPO_SLUG_RE (js ''..'') \<and>
   validate open_config dotdot_request = None"
  by (simp add: js_simps repo_slug_test tag_test repo_grammar_def slug_char_def validate_def
        open_config_def dotdot_request_def example_config_def example_request_def or_else_def
        image_test in_class_def image_class_def ENVS_def Let_def)

section \<open>Tail truncation\<close>

lemma tail_long: "1 \<le> n \<Longrightarrow> n < int (length s) \<Longrightarrow> tail s n = trailing (nat n) s"
  by (auto simp: tail_def slice_from_def trailing_def Let_def max_def nat_diff_distrib')

lemma tail_short: "int (length s) \<le> n \<Longrightarrow> tail s n = s"
  by (auto simp: tail_def)

lemma tail_idem: "0 \<le> n \<Longrightarrow> tail (tail s n) n = tail s n"
  by (auto simp: tail_def slice_from_def Let_def max_def)

text \<open>
  Claim C8, amended. For every string and every character budget \<open>N \<ge> 1\<close>, \<open>tail\<close>
  returns only the trailing \<open>N\<close>-character slice when the string is longer than \<open>N\<close>,
  and the string unchanged when it has \<open>N\<close> characters or fewer; and
  \<open>tail(tail(s, N), N) = tail(s, N)\<close> (this for every \<open>N \<ge> 0\<close>).
\<close>

theorem tail_budget:
  "(1 \<le> n \<longrightarrow>
      (n < int (length s) \<longrightarrow> tail s n = trailing (nat n) s \<and> int (length (tail s n)) = n) \<and>
      (int (length s) \<le> n \<longrightarrow> tail s n = s)) \<and>
   (0 \<le> n \<longrightarrow> tail (tail s n) n = tail s n)"
  using tail_long [of n s] tail_short [of s n] tail_idem [of n s]
  by (auto simp: trailing_def)

theorem tail_budget_witness:
  "tail (js ''abcdefgh'') 3 = js ''fgh'' \<and> tail (js ''ab'') 3 = js ''ab'' \<and>
   tail (tail (js ''abcdefgh'') 3) 3 = tail (js ''abcdefgh'') 3"
  using tail_budget [of 3 "js ''abcdefgh''"] tail_budget [of 3 "js ''ab''"]
  by (simp add: js_simps trailing_def tail_def slice_from_def)

text \<open>
  Claim C8 as stated, for every budget: with the budget 0 the string \<open>abc\<close> is longer
  than the budget, and \<open>tail\<close> returns all of it (\<open>str.slice(-0)\<close> is \<open>str.slice(0)\<close>),
  not the trailing slice of no characters.
\<close>

theorem tail_zero_budget_counterexample:
  "0 < int (length (js ''abc'')) \<and> tail (js ''abc'') 0 \<noteq> trailing 0 (js ''abc'')"
  by (simp add: js_simps tail_def slice_from_def trailing_def)

text \<open>
  A negative budget, which \<open>parseInt(...) || DEFAULT\<close> lets through, drops a prefix
  instead, and then \<open>tail\<close> is not idempotent.
\<close>

lemma tail_negative_not_idempotent:
  "tail (js ''abcdefgh'') (- 5) = js ''fgh'' \<and>
   tail (tail (js ''ab'') (- 1)) (- 1) \<noteq> tail (js ''ab'') (- 1)"
  by (simp add: js_simps tail_def slice_from_def)

section \<open>The lock table\<close>

lemma only_markers_empty: "only_markers Map.empty"
  by (simp add: only_markers_def)

lemma marker_cases: "only_markers m \<Longrightarrow> m r = None \<or> m r = Some True"
proof (cases "m r")
  case None
  then show ?thesis by simp
next
  case (Some b)
  assume "only_markers m"
  then have "m r \<noteq> Some False" by (simp add: only_markers_def)
  with Some show ?thesis by (cases b) simp_all
qed

lemma only_markers_acquire: "only_markers m \<Longrightarrow> only_markers (snd (acquireLock repo m))"
  by (simp add: only_markers_def acquireLock_def)

lemma only_markers_release: "only_markers m \<Longrightarrow> only_markers (releaseLock repo m)"
  by (simp add: only_markers_def releaseLock_def)

text \<open>
  Claim C6. On a lock table as the two operations build it from the empty one (every
  entry is the marker \<open>true\<close>): \<open>acquireLock(repo)\<close> inserts the marker and returns true
  when there is no entry for \<open>repo\<close>, and returns false and leaves the table as it is
  when there is one; \<open>releaseLock(repo)\<close> removes the entry of \<open>repo\<close> and no other, is
  idempotent, and changes nothing when the lock is not held; after \<open>releaseLock(repo)\<close>
  the next \<open>acquireLock(repo)\<close> succeeds. Both operations keep the table such a table.
\<close>

theorem lock_table_contract:
  "only_markers m \<longrightarrow>
     (m repo = None \<longrightarrow> acquireLock repo m = (True, m(repo \<mapsto> True))) \<and>
     (m repo \<noteq> None \<longrightarrow> acquireLock repo m = (False, m)) \<and>
     releaseLock repo m repo = None \<and>
     (\<forall>r. r \<noteq> repo \<longrightarrow> releaseLock repo m r = m r) \<and>
     releaseLock repo (releaseLock repo m) = releaseLock repo m \<and>
     (m repo = None \<longrightarrow> releaseLock repo m = m) \<and>
     fst (acquireLock repo (releaseLock repo m)) \<and>
     only_markers (snd (acquireLock repo m)) \<and> only_markers (releaseLock repo m)"
  using marker_cases [of m repo] only_markers_acquire [of m repo] only_markers_release [of m repo]
  by (auto simp: acquireLock_def releaseLock_def)

theorem lock_table_contract_witness:
  "only_markers [js ''sporty'' \<mapsto> True] \<and>
   acquireLock (js ''sporty'') [js ''sporty'' \<mapsto> True] = (False, [js ''sporty'' \<mapsto> True]) \<and>
   acquireLock (js ''blitzed'') [js ''sporty'' \<mapsto> True] =
     (True, [js ''sporty'' \<mapsto> True, js ''blitzed'' \<mapsto> True]) \<and>
   fst (acquireLock (js ''sporty'') (releaseLock (js ''sporty'') [js ''sporty'' \<mapsto> True]))"
proof -
  have ok: "only_markers [js ''sporty'' \<mapsto> True]"
    by (simp add: only_markers_def)
  show ?thesis
    using ok lock_table_contract [of "[js ''sporty'' \<mapsto> True]" "js ''sporty''"]
      lock_table_contract [of "[js ''sporty'' \<mapsto> True]" "js ''blitzed''"]
    by (simp add: js_simps)
qed

section \<open>Authentication\<close>

lemma typeof_string: "typeof a = ''string'' \<longleftrightarrow> (\<exists>x. a = JString x)"
  by (cases a) simp_all

lemma timingSafeEqual_eq:
  "timingSafeEqual a b =
     Inr (\<exists>x y. a = JString x \<and> b = JString y \<and> Buffer_from x = Buffer_from y)"
  by (cases a; cases b) (auto simp: timingSafeEqual_def crypto_timingSafeEqual_def Let_def)

lemma timingSafeEqual_returns: "\<exists>r. timingSafeEqual a b = Inr r"
  by (simp add: timingSafeEqual_eq)

lemma timingSafeEqual_not_string:
  "typeof a \<noteq> ''string'' \<or> typeof b \<noteq> ''string'' \<Longrightarrow> timingSafeEqual a b = Inr False"
  by (auto simp: timingSafeEqual_def typeof_string split: jsval.splits)

lemma timingSafeEqual_length:
  "length (Buffer_from x) \<noteq> length (Buffer_from y) \<Longrightarrow>
     timingSafeEqual (JString x) (JString y) = Inr False"
  by (simp add: timingSafeEqual_def)

lemma begin_unauthorized:
  "authorized cfg req = Inr False \<Longrightarrow>
     deploy_begin cfg sys req s = (Respond (error_response 401 (js ''Unauthorized'')), s)"
  by (simp add: deploy_begin_def)

lemma authorized_returns: "\<exists>r. authorized cfg req = Inr r"
  by (auto simp: authorized_def timingSafeEqual_eq Let_def)

text \<open>
  The token check passes exactly for a non-empty string header whose UTF-8 bytes are
  those of the configured token; a request that fails it is answered 401 at once, with
  the lock table untouched and no probe, lock operation or spawn.
\<close>

lemma authorized_iff:
  "authorized cfg req =
     Inr (\<exists>t. x_deploy_token req = JString t \<and> t \<noteq> [] \<and>
              Buffer_from t = Buffer_from (deployReceiverToken (secrets cfg)))"
  by (cases "x_deploy_token req") (auto simp: authorized_def timingSafeEqual_eq Let_def)

text \<open>
  Node hands a header value over as a string of code units below 256 (the bytes of the
  header line). For such a header, having the bytes of the token is being the token:
  the UTF-8 encoding tells two strings apart unless one holds a surrogate on its own.
\<close>

lemma byte_eq: "m < 256 \<Longrightarrow> n < 256 \<Longrightarrow> (of_nat m = (of_nat n :: byte)) = (m = n)"
  by (simp add: word_of_nat_eq_iff take_bit_eq_mod)

lemma unat_cu_bound: "unat (c :: cu) < 65536"
  using unsigned_less [of c, where ?'a = nat] by simp

lemma Buffer_from_nonempty: "Buffer_from (c # cs) \<noteq> []"
  by (auto simp: Let_def utf8_3_def utf8_4_def split: list.splits)

lemma lead_wide:
  assumes "128 \<le> unat d"
  shows "\<exists>b bs. Buffer_from (d # ds) = of_nat b # bs \<and> 192 \<le> b \<and> b < 256 \<and>
           (b < 224 \<longrightarrow> unat d < 2048)"
proof -
  have d: "unat d < 65536" by (rule unat_cu_bound)
  show ?thesis
  proof (cases "unat d < 2048")
    case True
    with assms show ?thesis
      by (intro exI [of _ "192 + unat d div 64"]) (auto simp: Let_def)
  next
    case False
    note big = this
    show ?thesis
    proof (cases "is_high_surrogate (unat d)")
      case True
      show ?thesis
      proof (cases ds)
        case Nil
        with True big assms show ?thesis
          by (intro exI [of _ "224 + 65533 div 4096"]) (simp add: Let_def utf8_3_def)
      next
        case (Cons e es)
        show ?thesis
        proof (cases "is_low_surrogate (unat e)")
          case low: True
          let ?cp = "65536 + (unat d - 55296) * 1024 + (unat e - 56320)"
          from True have "unat d - 55296 \<le> 1023"
            unfolding is_high_surrogate_def by linarith
          then have "(unat d - 55296) * 1024 \<le> 1023 * 1024"
            by (rule mult_le_mono1)
          with low have "?cp < 1114112"
            unfolding is_low_surrogate_def by linarith
          then have "240 + ?cp div 262144 < 256" by simp
          with True low big assms Cons show ?thesis
            by (intro exI [of _ "240 + ?cp div 262144"]) (simp add: Let_def utf8_4_def)
        next
          case False
          with True big assms Cons show ?thesis
            by (intro exI [of _ "224 + 65533 div 4096"]) (simp add: Let_def utf8_3_def)
        qed
      qed
    next
      case False
      note nh = this
      show ?thesis
      proof (cases "is_low_surrogate (unat d)")
        case True
        with nh big assms show ?thesis
          by (intro exI [of _ "224 + 65533 div 4096"]) (simp add: Let_def utf8_3_def)
      next
        case False
        from d have "224 + unat d div 4096 < 256" by simp
        with False nh big assms show ?thesis
          by (intro exI [of _ "224 + unat d div 4096"]) (simp add: Let_def utf8_3_def)
      qed
    qed
  qed
qed


lemma Buffer_from_narrow: "unat d < 128 \<Longrightarrow> Buffer_from (d # ds) = of_nat (unat d) # Buffer_from ds"
  by (simp add: Let_def del: of_nat_unat)

lemma Buffer_from_two:
  "128 \<le> unat d \<Longrightarrow> unat d < 2048 \<Longrightarrow>
     Buffer_from (d # ds) =
       of_nat (192 + unat d div 64) # of_nat (128 + unat d mod 64) # Buffer_from ds"
  by (simp add: Let_def)

lemma byte_eqD: "of_nat m = (of_nat n :: byte) \<Longrightarrow> m < 256 \<Longrightarrow> n < 256 \<Longrightarrow> m = n"
  by (simp add: byte_eq)

lemma Buffer_from_latin1_inj:
  "\<forall>c\<in>set h. unat c < 256 \<Longrightarrow> Buffer_from h = Buffer_from t \<Longrightarrow> h = t"
proof (induction h arbitrary: t)
  case Nil
  then show ?case using Buffer_from_nonempty by (cases t) (simp, metis Buffer_from.simps(1))
next
  case (Cons c h)
  from Cons.prems(2) obtain d ds where t: "t = d # ds"
    using Buffer_from_nonempty [of c h] by (cases t) auto
  from Cons.prems(1) have c: "unat c < 256" and h: "\<forall>c\<in>set h. unat c < 256" by simp_all
  note eq = Cons.prems(2) [unfolded t]
  show ?case
  proof (cases "unat c < 128")
    case True
    note cn = this
    note cb = Buffer_from_narrow [OF cn, of h]
    show ?thesis
    proof (cases "unat d < 128")
      case True
      note db = Buffer_from_narrow [OF True, of ds]
      from eq [unfolded cb db] have b: "of_nat (unat c) = (of_nat (unat d) :: byte)"
        and r: "Buffer_from h = Buffer_from ds"
        by blast+
      from True have "unat d < 256" by simp
      from byte_eqD [OF b c this] Cons.IH [OF h r] show ?thesis
        by (simp add: t word_unat_eq_iff)
    next
      case False
      then obtain b bs where w: "Buffer_from (d # ds) = of_nat b # bs" and b: "192 \<le> b" "b < 256"
        using lead_wide [of d ds] by auto
      from eq [unfolded cb w] have "of_nat (unat c) = (of_nat b :: byte)" by blast
      from byte_eqD [OF this c b(2)] cn b(1) show ?thesis by simp
    qed
  next
    case False
    then have c2: "128 \<le> unat c" "unat c < 2048" using c by simp_all
    have lc: "192 + unat c div 64 < 224" using c by simp
    then have lc': "192 + unat c div 64 < 256" by simp
    note cb = Buffer_from_two [OF c2, of h]
    show ?thesis
    proof (cases "unat d < 128")
      case True
      note db = Buffer_from_narrow [OF True, of ds]
      from eq [unfolded cb db] have e: "(of_nat (192 + unat c div 64) :: byte) = of_nat (unat d)"
        by blast
      from True have "unat d < 256" by simp
      from byte_eqD [OF e lc' this] True show ?thesis by simp
    next
      case False
      then obtain b bs where w: "Buffer_from (d # ds) = of_nat b # bs" and b: "192 \<le> b" "b < 256"
          "b < 224 \<longrightarrow> unat d < 2048"
        using lead_wide [of d ds] by auto
      from eq [unfolded cb w] have "(of_nat (192 + unat c div 64) :: byte) = of_nat b"
        by blast
      from byte_eqD [OF this lc' b(2)] lc b(3) have d2: "unat d < 2048" by simp
      from False have d1: "128 \<le> unat d" by simp
      note db = Buffer_from_two [OF d1 d2, of ds]
      from eq [unfolded cb db] have
        e1: "(of_nat (192 + unat c div 64) :: byte) = of_nat (192 + unat d div 64)" and
        e2: "(of_nat (128 + unat c mod 64) :: byte) = of_nat (128 + unat d mod 64)" and
        r: "Buffer_from h = Buffer_from ds"
        by blast+
      have "192 + unat d div 64 < 256" using d2 by simp
      from byte_eqD [OF e1 lc' this] have q: "unat c div 64 = unat d div 64" by simp
      have "128 + unat c mod 64 < 256" "128 + unat d mod 64 < 256" by simp_all
      from byte_eqD [OF e2 this] have m: "unat c mod 64 = unat d mod 64" by simp
      from q m have "unat c = unat d" by (metis div_mult_mod_eq)
      with Cons.IH [OF h r] show ?thesis by (simp add: t word_unat_eq_iff)
    qed
  qed
qed

lemma wrong_token_unauthorized:
  assumes "x_deploy_token req = JString t" and "\<forall>c\<in>set t. unat c < 256"
    and "t \<noteq> deployReceiverToken (secrets cfg)"
  shows "deploy_begin cfg sys req s = (Respond (error_response 401 (js ''Unauthorized'')), s)"
proof -
  from assms(2,3) have "Buffer_from t \<noteq> Buffer_from (deployReceiverToken (secrets cfg))"
    using Buffer_from_latin1_inj by blast
  with assms(1) have "authorized cfg req = Inr False"
    by (simp add: authorized_iff)
  then show ?thesis by (rule begin_unauthorized)
qed

lemma missing_token_unauthorized:
  "x_deploy_token req = JUndefined \<Longrightarrow>
     deploy_begin cfg sys req s = (Respond (error_response 401 (js ''Unauthorized'')), s)"
  by (simp add: begin_unauthorized authorized_iff)

lemma missing_token_like_wrong_token:
  "authorized cfg req = Inr False \<Longrightarrow>
     deploy_begin cfg sys req s =
       deploy_begin cfg sys (req\<lparr>x_deploy_token := JUndefined\<rparr>) s"
  by (simp add: deploy_begin_def authorized_def)

text \<open>
  Claim C10. \<open>timingSafeEqual\<close> never throws; it returns false when an argument is not
  a string (an array, for one) and when the two strings differ in byte length; so a
  request whose token header is such a value is answered 401, with no exception leaving
  the handler.
\<close>

theorem timingSafeEqual_total:
  "(\<exists>r. timingSafeEqual a b = Inr r) \<and>
   (typeof a \<noteq> ''string'' \<or> typeof b \<noteq> ''string'' \<longrightarrow> timingSafeEqual a b = Inr False) \<and>
   (\<forall>x y. a = JString x \<and> b = JString y \<and> length (Buffer_from x) \<noteq> length (Buffer_from y)
            \<longrightarrow> timingSafeEqual a b = Inr False) \<and>
   (x_deploy_token req = a \<and> b = JString (deployReceiverToken (secrets cfg)) \<and>
    (typeof a \<noteq> ''string'' \<or>
     (\<exists>x. a = JString x \<and>
          length (Buffer_from x) \<noteq> length (Buffer_from (deployReceiverToken (secrets cfg)))))
      \<longrightarrow> deploy_begin cfg sys req s = (Respond (error_response 401 (js ''Unauthorized'')), s))"
proof -
  have "authorized cfg req = Inr False"
    if "typeof (x_deploy_token req) \<noteq> ''string'' \<or>
        (\<exists>x. x_deploy_token req = JString x \<and>
             length (Buffer_from x) \<noteq> length (Buffer_from (deployReceiverToken (secrets cfg))))"
    using that timingSafeEqual_not_string [of "x_deploy_token req"] timingSafeEqual_length
    by (auto simp: authorized_def Let_def)
  then show ?thesis
    using timingSafeEqual_returns [of a b] timingSafeEqual_not_string [of a b]
      timingSafeEqual_length begin_unauthorized [of cfg req sys s]
    by blast
qed

theorem timingSafeEqual_total_witness:
  "timingSafeEqual (JArray [JString (js ''s3cret''), JString (js ''s3cret'')])
     (JString (js ''s3cret'')) = Inr False \<and>
   timingSafeEqual (JString (js ''s3cre'')) (JString (js ''s3cret'')) = Inr False \<and>
   deploy_begin example_config example_sys
     (example_request\<lparr>x_deploy_token := JArray [JString (js ''s3cret''), JString (js ''s3cret'')]\<rparr>)
     idle = (Respond (error_response 401 (js ''Unauthorized'')), idle)"
  using timingSafeEqual_total [of "JArray [JString (js ''s3cret''), JString (js ''s3cret'')]"
      "JString (js ''s3cret'')"
      "example_request\<lparr>x_deploy_token := JArray [JString (js ''s3cret''), JString (js ''s3cret'')]\<rparr>"
      example_config example_sys idle]
    timingSafeEqual_total [of "JString (js ''s3cre'')" "JString (js ''s3cret'')"]
  by (simp add: example_config_def js_simps)

section \<open>The run and its answer\<close>

lemma finish_resolved:
  "deploy_finish cfg a (Resolved exitCode out err) s =
     (Inr (if exitCode = Some 0 then
             \<lparr>res_status = 200, res_ok = True, res_repo = Some (run_repo a),
              res_image = Some (run_image a), res_tag = Some (run_tag a),
              res_output = Some (tail out (maxOutputChars cfg)), res_error = None\<rparr>
           else
             \<lparr>res_status = 500, res_ok = False, res_repo = Some (run_repo a),
              res_image = Some (run_image a), res_tag = Some (run_tag a), res_output = None,
              res_error = Some (tail (if err = [] then out else err) (maxOutputChars cfg))\<rparr>),
      s\<lparr>deployLocks := (deployLocks s)(run_repo a := None),
        effects := effects s @ [LockRelease (run_repo a)]\<rparr>)"
  by (simp add: deploy_finish_def try_catch_finally_def releaseLock_def)

lemma finish_rejected:
  "deploy_finish cfg a (Rejected e) s =
     (Inr \<lparr>res_status = 500, res_ok = False, res_repo = Some (run_repo a),
           res_image = Some (run_image a), res_tag = Some (run_tag a), res_output = None,
           res_error = Some e\<rparr>,
      s\<lparr>deployLocks := (deployLocks s)(run_repo a := None),
        effects := effects s @ [LockRelease (run_repo a)]\<rparr>)"
  by (simp add: deploy_finish_def try_catch_finally_def releaseLock_def)

lemma finish_status:
  "deploy_finish cfg a outcome s2 = (Inr r, s3) \<Longrightarrow> res_status r = 200 \<or> res_status r = 500"
  by (cases outcome) (auto simp: finish_resolved finish_rejected split: if_splits)

section \<open>The handler up to the run, case by case\<close>

lemma validate_status: "validate cfg req = Some r \<Longrightarrow> res_status r = 400 \<or> res_status r = 403"
  by (auto simp: validate_def Let_def error_response_def split: if_splits)

lemma check_paths_status:
  "check_paths cfg sys repo = (probes, Some r) \<Longrightarrow> res_status r = 404 \<or> res_status r = 500"
  by (auto simp: check_paths_def Let_def error_response_def split: if_splits)

lemma check_paths_probes:
  "e \<in> set (fst (check_paths cfg sys repo)) \<Longrightarrow> \<exists>p. e = FsProbe p"
  by (auto simp: check_paths_def Let_def split: if_splits)

text \<open>What a request that passed authentication, validation and the path checks does next.\<close>

lemma begin_lock_step:
  assumes "authorized cfg req = Inr True" and "validate cfg req = None"
    and "check_paths cfg sys (or_else (req_repo req) []) = (probes, None)"
  shows "deploy_begin cfg sys req s =
     (let repo = or_else (req_repo req) [];
          dir = path_join sys (appsRoot cfg) repo;
          script = path_join sys dir (js ''deploy.sh'');
          a = \<lparr>deployScript = script, repoDir = dir, run_repo = repo,
               run_image = or_else (req_image req) [], run_tag = or_else (req_tag req) [],
               run_env = or_else (req_environment req) [],
               reqId = request_id sys req\<rparr>;
          locked = s\<lparr>deployLocks := (deployLocks s)(repo \<mapsto> True),
                     effects := effects s @ probes @ [LockAcquire repo True]\<rparr>
      in if deployLocks s repo = Some True
         then (Respond (busy_response repo),
               s\<lparr>effects := effects s @ probes @ [LockAcquire repo False]\<rparr>)
         else (case ToString (request_id sys req) of
                 Inl e \<Rightarrow> (Uncaught e, locked)
               | Inr line \<Rightarrow>
                   (Await a, locked\<lparr>effects := effects locked @ runDeploy_launch cfg a\<rparr>)))"
  using assms by (simp add: deploy_begin_def Let_def acquireLock_def split: sum.splits)

lemma begin_cases:
  assumes "deploy_begin cfg sys req s = (out, s')"
  obtains
    (unauthorized) "out = Respond (error_response 401 (js ''Unauthorized''))" "s' = s"
  | (invalid) r where "validate cfg req = Some r" "out = Respond r" "s' = s"
  | (missing) probes r where "check_paths cfg sys (or_else (req_repo req) []) = (probes, Some r)"
      "out = Respond r" "s' = s\<lparr>effects := effects s @ probes\<rparr>"
  | (busy) probes where "check_paths cfg sys (or_else (req_repo req) []) = (probes, None)"
      "deployLocks s (or_else (req_repo req) []) = Some True"
      "out = Respond (busy_response (or_else (req_repo req) []))"
      "s' = s\<lparr>effects := effects s @ probes @ [LockAcquire (or_else (req_repo req) []) False]\<rparr>"
  | (thrown) probes e where "check_paths cfg sys (or_else (req_repo req) []) = (probes, None)"
      "deployLocks s (or_else (req_repo req) []) \<noteq> Some True"
      "ToString (request_id sys req) = Inl e" "out = Uncaught e"
      "s' = s\<lparr>deployLocks := (deployLocks s)(or_else (req_repo req) [] \<mapsto> True),
               effects := effects s @ probes @ [LockAcquire (or_else (req_repo req) []) True]\<rparr>"
  | (spawned) probes a line where
      "check_paths cfg sys (or_else (req_repo req) []) = (probes, None)"
      "deployLocks s (or_else (req_repo req) []) \<noteq> Some True"
      "ToString (request_id sys req) = Inr line"
      "out = Await a" "run_repo a = or_else (req_repo req) []"
      "s' = s\<lparr>deployLocks := (deployLocks s)(run_repo a \<mapsto> True),
               effects := effects s @ probes @ [LockAcquire (run_repo a) True] @
                 runDeploy_launch cfg a\<rparr>"
proof -
  obtain auth where au: "authorized cfg req = Inr auth"
    using authorized_returns by blast
  show thesis
  proof (cases auth)
    case False
    with au assms unauthorized show thesis by (simp add: deploy_begin_def)
  next
    case True
    note t = this
    show thesis
    proof (cases "validate cfg req")
      case (Some r)
      with au t assms invalid show thesis by (simp add: deploy_begin_def)
    next
      case None
      obtain probes m where cp: "check_paths cfg sys (or_else (req_repo req) []) = (probes, m)"
        by (cases "check_paths cfg sys (or_else (req_repo req) [])") auto
      show thesis
      proof (cases m)
        case (Some r)
        with au t None cp assms missing show thesis by (simp add: deploy_begin_def Let_def)
      next
        case N2: None
        from au t have au': "authorized cfg req = Inr True" by simp
        from cp N2 have cp': "check_paths cfg sys (or_else (req_repo req) []) = (probes, None)"
          by simp
        note step = begin_lock_step [OF au' None cp', of s]
        show thesis
        proof (cases "deployLocks s (or_else (req_repo req) []) = Some True")
          case True
          with step assms busy [OF cp'] show thesis by (simp add: Let_def)
        next
          case False
          note free = this
          show thesis
          proof (cases "ToString (request_id sys req)")
            case (Inl e)
            with free step assms thrown [OF cp' free] show thesis by (simp add: Let_def)
          next
            case (Inr line)
            with free step assms spawned [OF cp' free] show thesis by (simp add: Let_def)
          qed
        qed
      qed
    qed
  qed
qed

lemma busy_status: "res_status (busy_response repo) = 409"
  by (simp add: busy_response_def error_response_def)

section \<open>The example request, evaluated\<close>

lemma example_authorized: "authorized example_config example_request = Inr True"
  by (simp add: authorized_def example_config_def example_request_def timingSafeEqual_def
        crypto_timingSafeEqual_def js_simps Let_def)

lemma example_validate: "validate example_config example_request = None"
  by (simp add: validate_def example_config_def example_request_def or_else_def js_simps Let_def
        repo_slug_test tag_test repo_grammar_def slug_char_def image_test in_class_def
        image_class_def ENVS_def)

lemma example_paths:
  "check_paths example_config example_sys (js ''sporty'') =
     ([FsProbe (js ''/home/apps/sporty''), FsProbe (js ''/home/apps/sporty/deploy.sh''),
       FsProbe (js ''/home/apps/sporty/deploy.sh'')], None)"
  by (simp add: check_paths_def example_config_def example_sys_def js_simps Let_def)

lemma example_begin:
  "deploy_begin example_config example_sys example_request idle =
     (Await example_args, example_running)"
  unfolding deploy_begin_def example_authorized example_validate
  by (simp add: example_request_def or_else_def js_simps acquireLock_def idle_def
        example_args_def example_running_def example_sys_def example_config_def spawn_env_def
        check_paths_def request_id_def runDeploy_launch_def Let_def)

lemma example_busy_begin:
  "deploy_begin example_config example_sys example_request sporty_busy =
     (Respond (busy_response (js ''sporty'')), sporty_refused)"
  unfolding deploy_begin_def example_authorized example_validate
  by (simp add: example_request_def or_else_def js_simps acquireLock_def sporty_busy_def
        sporty_refused_def example_sys_def example_config_def check_paths_def Let_def
        busy_response_def)



section \<open>Order of validation\<close>






section \<open>Events of the run\<close>



text \<open>While the child runs, the promise is as it was and the buffers grow by the chunks.\<close>

lemma runDeploy_running:
  "running es \<Longrightarrow>
     settled (fst (runDeploy es r)) = settled r \<and>
     stdout (fst (runDeploy es r)) = stdout r @ stdout_of es \<and>
     stderr (fst (runDeploy es r)) = stderr r @ stderr_of es"
proof (induction es arbitrary: r)
  case Nil
  then show ?case by simp
next
  case (Cons e es)
  then show ?case
    by (cases "(e, r)" rule: runDeploy_on.cases) (auto simp: split_beta)
qed



text \<open>The handler waits while the child runs.\<close>

lemma await_running:
  "running es \<Longrightarrow> settled r = None \<Longrightarrow>
     await_events cfg a (es @ rest) r Pending s =
       await_events cfg a rest (fst (runDeploy es r)) Pending
         (s\<lparr>effects := effects s @ snd (runDeploy es r)\<rparr>)"
proof (induction es arbitrary: r s)
  case Nil
  then show ?case by simp
next
  case (Cons e es)
  from Cons.prems have e: "running [e]" and es: "running es"
    by (cases e; simp)+
  from runDeploy_running [OF e, of r] Cons.prems(2)
  have pending: "settled (fst (runDeploy_on e r)) = None" by (simp add: split_beta)
  show ?case
    using Cons.IH [OF es pending, of "s\<lparr>effects := effects s @ snd (runDeploy_on e r)\<rparr>"] pending
    by (simp add: split_beta)
qed

text \<open>At the close event the promise resolves and the handler answers.\<close>

lemma await_close:
  "settled r = None \<Longrightarrow>
     await_events cfg a [CloseEvent exitCode] r Pending s =
       (Replied (if exitCode = Some 0 then success a (tail (stdout r) (maxOutputChars cfg))
                 else failure a (tail (if stderr r = [] then stdout r else stderr r)
                                   (maxOutputChars cfg))),
        s\<lparr>deployLocks := (deployLocks s)(run_repo a := None),
          effects := effects s @ [ClearTimeout TermTimer, LockRelease (run_repo a)]\<rparr>)"
  by (simp add: settle_def finish_resolved success_def failure_def)

lemma launched_simps:
  "settled launched = None" "stdout launched = []" "stderr launched = []"
  "term_waiting launched" "\<not> kill_waiting launched"
  by (simp_all add: launched_def)

text \<open>A run that ends with the close event, from the launch to the answer.\<close>

lemma await_until_close:
  assumes "running pre"
  shows "await_events cfg a (pre @ [CloseEvent exitCode]) launched Pending s =
       (Replied (if exitCode = Some 0 then success a (tail (stdout_of pre) (maxOutputChars cfg))
                 else failure a (tail (if stderr_of pre = [] then stdout_of pre else stderr_of pre)
                                   (maxOutputChars cfg))),
        s\<lparr>deployLocks := (deployLocks s)(run_repo a := None),
          effects := effects s @ snd (runDeploy pre launched) @
            [ClearTimeout TermTimer, LockRelease (run_repo a)]\<rparr>)"
proof -
  from runDeploy_running [OF assms, of launched]
  have r: "settled (fst (runDeploy pre launched)) = None"
    "stdout (fst (runDeploy pre launched)) = stdout_of pre"
    "stderr (fst (runDeploy pre launched)) = stderr_of pre"
    by (simp_all add: launched_simps)
  show ?thesis
    unfolding await_running [OF assms launched_simps(1)] await_close [OF r(1)] r
    by simp
qed

lemma await_pending:
  "running es \<Longrightarrow>
     await_events cfg a es launched Pending s =
       (Pending, s\<lparr>effects := effects s @ snd (runDeploy es launched)\<rparr>)"
  using await_running [of es launched cfg a "[]" s] by (simp add: launched_simps)

text \<open>
  The end-to-end example of the specification: the script prints \<open>OK\<close> and exits 0.
\<close>

lemma end_to_end_example:
  "fst (deploy example_config example_sys example_request
          [StdoutData (js ''OK''), CloseEvent (Some 0)] idle) =
     Replied \<lparr>res_status = 200, res_ok = True, res_repo = Some (js ''sporty''),
              res_image = Some (js ''ghcr.io/tihlde/sporty''), res_tag = Some (js ''latest''),
              res_output = Some (js ''OK''), res_error = None\<rparr>"
proof -
  have run: "running [StdoutData (js ''OK'')]" by simp
  have "deploy example_config example_sys example_request
          [StdoutData (js ''OK''), CloseEvent (Some 0)] idle =
        await_events example_config example_args ([StdoutData (js ''OK'')] @ [CloseEvent (Some 0)])
          launched Pending example_running"
    unfolding deploy_def example_begin by simp
  also note await_until_close [OF run]
  finally show ?thesis
    by (simp add: success_def example_args_def example_config_def tail_def js_simps)
qed

section \<open>Release of the lock\<close>

lemma begin_await:
  assumes "deploy_begin cfg sys req s = (Await a, s1)"
  shows "deployLocks s1 = (deployLocks s)(run_repo a \<mapsto> True)"
    and "effects s1 = effects s @ fst (check_paths cfg sys (run_repo a)) @
           [LockAcquire (run_repo a) True] @ runDeploy_launch cfg a"
    and "deployLocks s (run_repo a) \<noteq> Some True"
  using assms by (cases rule: begin_cases; simp)+

text \<open>
  When the promise of \<open>runDeploy\<close> does not settle, the handler does not resume and the
  lock stays.
\<close>

lemma pending_keeps_lock:
  "deploy_begin cfg sys req s = (Await a, s1) \<Longrightarrow> running events \<Longrightarrow>
     fst (deploy cfg sys req events s) = Pending \<and>
     deployLocks (snd (deploy cfg sys req events s)) (run_repo a) = Some True"
  using begin_await(1) [of cfg sys req s a s1] by (simp add: deploy_def await_pending)

text \<open>
  A request that has reached \<open>await runDeploy(...)\<close> holds the lock and has not
  released it; and however the promise settles, and whatever other requests did to the
  state meanwhile, the handler answers and releases the lock exactly once: the one
  effect it adds is the release, and afterwards the table has no entry for the
  repository.
\<close>

lemma release_after_run:
  assumes "deploy_begin cfg sys req s = (Await a, s1)"
  shows "deployLocks s1 (run_repo a) = Some True"
    and "LockRelease (run_repo a) \<notin> set (drop (length (effects s)) (effects s1))"
    and "\<exists>r. deploy_finish cfg a outcome s2 =
          (Inr r, s2\<lparr>deployLocks := (deployLocks s2)(run_repo a := None),
                     effects := effects s2 @ [LockRelease (run_repo a)]\<rparr>)"
proof -
  have "LockRelease (run_repo a) \<notin> set (fst (check_paths cfg sys (run_repo a)))"
    by (auto simp: check_paths_def Let_def)
  with begin_await [OF assms]
  show "deployLocks s1 (run_repo a) = Some True"
    and "LockRelease (run_repo a) \<notin> set (drop (length (effects s)) (effects s1))"
    by (simp_all add: runDeploy_launch_def)
  show "\<exists>r. deploy_finish cfg a outcome s2 =
          (Inr r, s2\<lparr>deployLocks := (deployLocks s2)(run_repo a := None),
                     effects := effects s2 @ [LockRelease (run_repo a)]\<rparr>)"
    by (cases outcome) (simp_all add: finish_resolved finish_rejected)
qed

lemma unprintable_authorized: "authorized example_config unprintable_request = Inr True"
  by (simp add: authorized_def example_config_def example_request_def timingSafeEqual_def
        crypto_timingSafeEqual_def js_simps Let_def unprintable_request_def)

lemma unprintable_validate: "validate example_config unprintable_request = None"
  by (simp add: validate_def unprintable_request_def example_config_def example_request_def
        or_else_def js_simps Let_def repo_slug_test tag_test repo_grammar_def slug_char_def
        image_test in_class_def image_class_def ENVS_def)

text \<open>
  Claim C3, where the code fails it. The claim asks that every request that acquires the
  lock releases it. The request of the README with \<open>"deliveryId": {"toString": true}\<close>
  passes the token check, the validation and the path checks and takes the lock of
  \<open>sporty\<close>; then the log line converts \<open>reqId\<close> to a string, which throws a
  TypeError before the \<open>try\<close> is entered. No release follows, the entry stays, and
  the next request for \<open>sporty\<close> is answered 409.
\<close>

theorem lock_leaked_before_try:
  "deploy_begin example_config example_sys unprintable_request idle =
     (Uncaught (js ''Cannot convert object to primitive value''), sporty_leaked) \<and>
   deployLocks sporty_leaked (js ''sporty'') = Some True \<and>
   LockRelease (js ''sporty'') \<notin> set (effects sporty_leaked) \<and>
   fst (deploy_begin example_config example_sys example_request sporty_leaked) =
     Respond (busy_response (js ''sporty''))"
proof -
  have "deploy_begin example_config example_sys unprintable_request idle =
     (Uncaught (js ''Cannot convert object to primitive value''), sporty_leaked)"
    unfolding deploy_begin_def unprintable_authorized unprintable_validate
    by (simp add: unprintable_request_def example_request_def or_else_def js_simps
          acquireLock_def idle_def sporty_leaked_def example_sys_def example_config_def
          check_paths_def request_id_def Let_def)
  moreover have "fst (deploy_begin example_config example_sys example_request sporty_leaked) =
     Respond (busy_response (js ''sporty''))"
    unfolding deploy_begin_def example_authorized example_validate
    by (simp add: example_request_def or_else_def js_simps acquireLock_def sporty_leaked_def
          example_sys_def example_config_def check_paths_def Let_def busy_response_def)
  ultimately show ?thesis by (simp add: sporty_leaked_def)
qed

section \<open>Busy\<close>

text \<open>
  Claim C4. Whenever \<open>acquireLock\<close> fails in a request, the repository was locked,
  the answer is the 409 response naming it, the lock table is as before, and the
  request spawns nothing. No other answer of the handler has status 409: not one given
  before the run (401, 400, 403, 404, 500), not one given after it (200, 500).
\<close>

theorem busy_conflict:
  "deploy_begin cfg sys req s = (out, s') \<longrightarrow>
     (LockAcquire repo False \<in> set (drop (length (effects s)) (effects s')) \<longrightarrow>
        deployLocks s repo = Some True \<and> out = Respond (busy_response repo) \<and>
        res_status (busy_response repo) = 409 \<and> deployLocks s' = deployLocks s \<and>
        (\<forall>p d e t. Spawn p d e t \<notin> set (drop (length (effects s)) (effects s')))) \<and>
     (\<forall>r. out = Respond r \<and> res_status r = 409 \<longrightarrow>
          r = busy_response (or_else (req_repo req) []) \<and>
          LockAcquire (or_else (req_repo req) []) False
            \<in> set (drop (length (effects s)) (effects s'))) \<and>
     (\<forall>a outcome s2 r s3. deploy_finish cfg a outcome s2 = (Inr r, s3) \<longrightarrow> res_status r \<noteq> 409)"
proof
  assume b: "deploy_begin cfg sys req s = (out, s')"
  have fin: "\<forall>a outcome s2 r s3. deploy_finish cfg a outcome s2 = (Inr r, s3) \<longrightarrow> res_status r \<noteq> 409"
    using finish_status by fastforce
  from b have main: "(LockAcquire repo False \<in> set (drop (length (effects s)) (effects s')) \<longrightarrow>
        deployLocks s repo = Some True \<and> out = Respond (busy_response repo) \<and>
        deployLocks s' = deployLocks s \<and>
        (\<forall>p d e t. Spawn p d e t \<notin> set (drop (length (effects s)) (effects s')))) \<and>
     (\<forall>r. out = Respond r \<and> res_status r = 409 \<longrightarrow>
          r = busy_response (or_else (req_repo req) []) \<and>
          LockAcquire (or_else (req_repo req) []) False
            \<in> set (drop (length (effects s)) (effects s')))"
  proof (cases rule: begin_cases)
    case unauthorized
    then show ?thesis by (simp add: error_response_def)
  next
    case (invalid r)
    then show ?thesis using validate_status [of cfg req r] by auto
  next
    case (missing probes r)
    then show ?thesis
      using check_paths_status [OF missing(1)]
        check_paths_probes [of "LockAcquire repo False" cfg sys "or_else (req_repo req) []"]
      by auto
  next
    case (busy probes)
    then show ?thesis
      using check_paths_probes [of _ cfg sys "or_else (req_repo req) []"]
      by (auto simp: busy_status)
  next
    case (thrown probes e)
    then show ?thesis
      using check_paths_probes [of "LockAcquire repo False" cfg sys "or_else (req_repo req) []"]
      by auto
  next
    case (spawned probes a)
    then show ?thesis
      using check_paths_probes [of "LockAcquire repo False" cfg sys "or_else (req_repo req) []"]
      by (auto simp: runDeploy_launch_def)
  qed
  with fin show "(LockAcquire repo False \<in> set (drop (length (effects s)) (effects s')) \<longrightarrow>
        deployLocks s repo = Some True \<and> out = Respond (busy_response repo) \<and>
        res_status (busy_response repo) = 409 \<and> deployLocks s' = deployLocks s \<and>
        (\<forall>p d e t. Spawn p d e t \<notin> set (drop (length (effects s)) (effects s')))) \<and>
     (\<forall>r. out = Respond r \<and> res_status r = 409 \<longrightarrow>
          r = busy_response (or_else (req_repo req) []) \<and>
          LockAcquire (or_else (req_repo req) []) False
            \<in> set (drop (length (effects s)) (effects s'))) \<and>
     (\<forall>a outcome s2 r s3. deploy_finish cfg a outcome s2 = (Inr r, s3) \<longrightarrow> res_status r \<noteq> 409)"
    using busy_status [of repo] by blast
qed

theorem busy_conflict_witness:
  "deploy_begin example_config example_sys example_request sporty_busy =
     (Respond (busy_response (js ''sporty'')), sporty_refused) \<and>
   LockAcquire (js ''sporty'') False
     \<in> set (drop (length (effects sporty_busy)) (effects sporty_refused)) \<and>
   res_status (busy_response (js ''sporty'')) = 409 \<and>
   deployLocks sporty_refused = deployLocks sporty_busy \<and>
   (\<forall>p d e t. Spawn p d e t \<notin> set (effects sporty_refused))"
proof -
  have acq: "LockAcquire (js ''sporty'') False
     \<in> set (drop (length (effects sporty_busy)) (effects sporty_refused))"
    by (simp add: sporty_busy_def sporty_refused_def)
  have eff: "drop (length (effects sporty_busy)) (effects sporty_refused) = effects sporty_refused"
    by (simp add: sporty_busy_def)
  show ?thesis
    using busy_conflict [of example_config example_sys example_request sporty_busy
        "Respond (busy_response (js ''sporty''))" sporty_refused "js ''sporty''"]
      example_busy_begin acq
    unfolding eff by blast
qed

section \<open>Shape of the answer after a run\<close>







section \<open>The timeout ladder\<close>








end
